theory Spec2Isabelle
  imports Complex_Main
begin

section \<open>Scanner motion: the data model\<close>

text \<open>
  A shallow embedding of \<^verbatim>\<open>scanner.py\<close> (class \<^verbatim>\<open>Scanner\<close>).
  Python floats and numpy float64 values are idealised as the reals; quantities with units
  (pint) are their magnitudes in the unit the source converts to (V, V/s, Hz).
  A position is the list \<^verbatim>\<open>[x, y, z]\<close> of the source, fixed here to its
  three entries.
\<close>

datatype axis = X | Y | Z

datatype temp_mode = RT | LT

type_synonym position = "real \<times> real \<times> real"

fun coord :: "axis \<Rightarrow> position \<Rightarrow> real" where
  "coord X (x, y, z) = x"
| "coord Y (x, y, z) = y"
| "coord Z (x, y, z) = z"

text \<open>A ramp is the array \<^verbatim>\<open>np.array(ramp)\<close>: one row of samples per axis, in the order x, y, z.\<close>

type_synonym ramp = "real list list"

text \<open>
  The exceptions the modelled code can raise. \<open>OutOfRange ax lims\<close> is the
  \<^verbatim>\<open>ValueError\<close> of \<^verbatim>\<open>goto\<close>, whose message names the axis and its sorted limits.
\<close>

datatype error =
    OutOfRange axis "real list"
  | BadTempMode
  | EmptyLimits
  | BadValidatorRange
  | DimensionalityError
  | OverflowError
  | NaNToInt
  | NegativeSamples
  | DaqError
  | IndexError
  | FitError

datatype log_msg =
    WarnRampSpeedMax real
  | DebugWrote nat
  | InfoMoved position position
  | DebugMoved position position
  | WarnBridgeUnbalanced
  | WarnLockinRailing
  | WarnSlopeTooBig real
  | InfoTouchdownAt real
  | InfoNoTouchdownInRange

text \<open>
  The attributes of a \<^verbatim>\<open>Scanner\<close> that \<^verbatim>\<open>_parse_unitful_quantities\<close> fills from the
  configuration: the temperature mode, the voltage limits per mode and axis (a list of
  limits in V), the retract voltage per mode, the configured speed (V/s) and the DAQ rate (Hz).
\<close>

record scanner_config =
  temp :: temp_mode
  voltage_limits :: "temp_mode \<Rightarrow> axis \<Rightarrow> real list"
  voltage_retract :: "temp_mode \<Rightarrow> real"
  speed :: real
  daq_rate :: real

text \<open>
  The hardware and the mutable attributes. \<open>ao_volts\<close> are the voltages now on the three
  analog outputs, which the analog inputs x, y, z of \<^verbatim>\<open>get_pos\<close> read back;
  \<open>ao_writes\<close> lists every ramp written to an analog-output task, oldest first;
  \<open>cached_position\<close> is \<^verbatim>\<open>metadata['position']\<close>; \<open>log_out\<close> is what went to the logger.
\<close>

record scanner_state =
  ao_volts :: position
  ao_writes :: "ramp list"
  cached_position :: position
  log_out :: "log_msg list"

text \<open>A method that may raise: it returns the exception or its value, and the state it left.\<close>

type_synonym 'a action = "scanner_state \<Rightarrow> (error + 'a) \<times> scanner_state"

definition ret :: "'a \<Rightarrow> 'a action" where
  "ret a s = (Inr a, s)"

definition raise :: "error \<Rightarrow> 'a action" where
  "raise e s = (Inl e, s)"

definition bind :: "'a action \<Rightarrow> ('a \<Rightarrow> 'b action) \<Rightarrow> 'b action" where
  "bind m f s = (case m s of (Inl e, s') \<Rightarrow> (Inl e, s') | (Inr a, s') \<Rightarrow> f a s')"

definition emit :: "log_msg list \<Rightarrow> unit action" where
  "emit msgs s = (Inr (), s\<lparr>log_out := log_out s @ msgs\<rparr>)"

section \<open>Numeric helpers\<close>

text \<open>\<^verbatim>\<open>int(x)\<close> on a finite float truncates toward zero.\<close>

definition py_int :: "real \<Rightarrow> int" where
  "py_int x = (if 0 \<le> x then \<lfloor>x\<rfloor> else \<lceil>x\<rceil>)"

text \<open>\<^verbatim>\<open>np.round(v, decimals=3)\<close>: scale, round half to even, scale back.\<close>

definition rint :: "real \<Rightarrow> int" where
  "rint x = (let f = \<lfloor>x\<rfloor>; d = x - of_int f in
     if d < 1/2 then f else if 1/2 < d then f + 1 else if even f then f else f + 1)"

definition np_round3 :: "real \<Rightarrow> real" where
  "np_round3 v = of_int (rint (v * 1000)) / 1000"

text \<open>\<^verbatim>\<open>min\<close> and \<^verbatim>\<open>max\<close> of a non-empty list.\<close>

fun py_min :: "real list \<Rightarrow> real" where
  "py_min [] = 0"
| "py_min (x # xs) = fold min xs x"

fun py_max :: "real list \<Rightarrow> real" where
  "py_max [] = 0"
| "py_max (x # xs) = fold max xs x"

text \<open>
  \<^verbatim>\<open>np.linspace(start, stop, num)\<close> with the default \<^verbatim>\<open>endpoint=True\<close>: a negative
  \<^verbatim>\<open>num\<close> raises; the samples are \<open>start + i * step\<close> with
  \<open>step = (stop - start) / (num - 1)\<close>, and when \<open>num > 1\<close> the last one is then
  overwritten with \<open>stop\<close>.
\<close>

definition linspace :: "real \<Rightarrow> real \<Rightarrow> int \<Rightarrow> error + real list" where
  "linspace start stop num =
     (if num < 0 then Inl NegativeSamples
      else
        let n = nat num;
            step = (stop - start) / real (n - 1);
            y = map (\<lambda>i. start + real i * step) [0..<n]
        in Inr (if 1 < n then y[n - 1 := stop] else y))"

section \<open>The ramp planner\<close>

text \<open>
  \<^verbatim>\<open>Scanner.make_ramp(pos0, pos1, speed)\<close>. The warning is logged when the speed exceeds
  the configured one; the value of \<^verbatim>\<open>speed\<close> is not assigned to afterwards.
  \<^verbatim>\<open>max_ramp_distance\<close> is a numpy float, so a zero speed divides to \<open>inf\<close> or \<open>nan\<close>,
  on which \<^verbatim>\<open>int\<close> raises \<^verbatim>\<open>OverflowError\<close> or \<^verbatim>\<open>ValueError\<close>.
  The result pairs the messages logged with the returned array.
\<close>

definition max_ramp_distance :: "position \<Rightarrow> position \<Rightarrow> real" where
  "max_ramp_distance pos0 pos1 =
     py_max (map (\<lambda>ax. \<bar>coord ax pos1 - coord ax pos0\<bar>) [X, Y, Z])"

fun collect :: "(error + 'a) list \<Rightarrow> error + 'a list" where
  "collect [] = Inr []"
| "collect (Inl e # rs) = Inl e"
| "collect (Inr a # rs) = (case collect rs of Inl e \<Rightarrow> Inl e | Inr as \<Rightarrow> Inr (a # as))"

definition make_ramp ::
  "scanner_config \<Rightarrow> position \<Rightarrow> position \<Rightarrow> real \<Rightarrow> error + (log_msg list \<times> ramp)" where
  "make_ramp cfg pos0 pos1 spd =
     (let msgs = (if speed cfg < spd then [WarnRampSpeedMax (speed cfg)] else []);
          dist = max_ramp_distance pos0 pos1
      in if spd = 0 then
           (if dist = 0 \<or> daq_rate cfg = 0 then Inl NaNToInt else Inl OverflowError)
         else
           let ramp_time = dist / spd;
               npts = py_int (ramp_time * daq_rate cfg) + 2
           in case collect (map (\<lambda>ax. linspace (coord ax pos0) (coord ax pos1) npts) [X, Y, Z]) of
                Inl e \<Rightarrow> Inl e
              | Inr rows \<Rightarrow> Inr (msgs, rows))"

section \<open>Reading and moving the scanner\<close>

text \<open>
  \<^verbatim>\<open>Scanner.get_pos\<close> (also \<^verbatim>\<open>self.position()\<close>, the parameter's getter): reads the
  three analog inputs, rounds to three decimals and stores the strings in the metadata.
  No analog-output task is involved.
\<close>

definition rounded_reading :: "scanner_state \<Rightarrow> position" where
  "rounded_reading s =
     (np_round3 (coord X (ao_volts s)), np_round3 (coord Y (ao_volts s)),
      np_round3 (coord Z (ao_volts s)))"

definition get_pos :: "position action" where
  "get_pos s = (Inr (rounded_reading s), s\<lparr>cached_position := rounded_reading s\<rparr>)"

text \<open>
  The \<^verbatim>\<open>speed\<close> argument of \<^verbatim>\<open>goto\<close> and \<^verbatim>\<open>retract\<close> is annotated
  \<^verbatim>\<open>Optional[str]\<close>: a string with units such as \<^verbatim>\<open>'2 V/s'\<close> (\<open>SpeedStr v\<close>, with
  \<open>v\<close> its magnitude in V/s). The source also hands the magnitude itself over, a bare float
  (\<open>SpeedNum v\<close>); pint reads a bare number as a dimensionless quantity, whose conversion
  \<^verbatim>\<open>.to('V/s')\<close> raises \<^verbatim>\<open>DimensionalityError\<close>.
\<close>

datatype speed_arg = SpeedStr real | SpeedNum real

fun parse_speed :: "scanner_config \<Rightarrow> speed_arg option \<Rightarrow> error + real" where
  "parse_speed cfg None = Inr (speed cfg)"
| "parse_speed cfg (Some (SpeedStr v)) = Inr v"
| "parse_speed cfg (Some (SpeedNum v)) = Inl DimensionalityError"

text \<open>
  The validation loop of \<^verbatim>\<open>goto\<close> over the axes in the order x, y, z: the first axis
  whose requested value is below the minimum or above the maximum of its limits raises.
  (\<^verbatim>\<open>min\<close> of an empty list of limits raises too.)
\<close>

fun check_limits :: "scanner_config \<Rightarrow> position \<Rightarrow> axis list \<Rightarrow> error option" where
  "check_limits cfg new_pos [] = None"
| "check_limits cfg new_pos (ax # axs) =
     (let ax_lim = sort (voltage_limits cfg (temp cfg) ax) in
      if ax_lim = [] then Some EmptyLimits
      else if coord ax new_pos < py_min ax_lim \<or> py_max ax_lim < coord ax new_pos
        then Some (OutOfRange ax ax_lim)
      else check_limits cfg new_pos axs)"

text \<open>
  The analog-output task of \<^verbatim>\<open>goto\<close>: the three channels are written with the ramp and
  the task runs to completion, after which the outputs hold the last sample of each row.
  A task of zero samples per channel is refused by the driver.
\<close>

definition write_ramp :: "ramp \<Rightarrow> nat action" where
  "write_ramp rmp s =
     (if length (rmp ! 0) = 0 then (Inl DaqError, s)
      else (Inr (length (rmp ! 0)),
            s\<lparr>ao_writes := ao_writes s @ [rmp],
              ao_volts := (last (rmp ! 0), last (rmp ! 1), last (rmp ! 2))\<rparr>))"

text \<open>The first lines of \<^verbatim>\<open>goto\<close>: read the old position, parse the speed, validate the target.\<close>

definition goto_begin ::
  "scanner_config \<Rightarrow> position \<Rightarrow> speed_arg option \<Rightarrow> (position \<times> real) action" where
  "goto_begin cfg new_pos spd =
     bind get_pos (\<lambda>old_pos.
       case parse_speed cfg spd of
         Inl e \<Rightarrow> raise e
       | Inr v \<Rightarrow>
           (case check_limits cfg new_pos [X, Y, Z] of
              Some e \<Rightarrow> raise e
            | None \<Rightarrow> ret (old_pos, v)))"

text \<open>The branch \<^verbatim>\<open>if not retract_first\<close>: plan one ramp and write it.\<close>

definition goto_ramp :: "scanner_config \<Rightarrow> position \<Rightarrow> position \<Rightarrow> real \<Rightarrow> unit action" where
  "goto_ramp cfg old_pos new_pos v =
     (case make_ramp cfg old_pos new_pos v of
        Inl e \<Rightarrow> raise e
      | Inr (msgs, rmp) \<Rightarrow>
          bind (emit msgs) (\<lambda>_. bind (write_ramp rmp) (\<lambda>pts. emit [DebugWrote pts])))"

text \<open>The last lines of \<^verbatim>\<open>goto\<close>: read the position again, log the move, update the metadata.\<close>

definition goto_end :: "position \<Rightarrow> bool \<Rightarrow> unit action" where
  "goto_end old_pos quiet =
     bind get_pos (\<lambda>current_pos.
       emit [if quiet then DebugMoved old_pos current_pos else InfoMoved old_pos current_pos])"

text \<open>
  \<^verbatim>\<open>goto\<close> calls itself only from its \<^verbatim>\<open>retract_first\<close> branch (directly and through
  \<^verbatim>\<open>retract\<close>), and there always with the default \<^verbatim>\<open>retract_first=False\<close>. The inner
  calls are \<open>goto_direct\<close>, the body of \<^verbatim>\<open>goto\<close> with \<^verbatim>\<open>retract_first=False\<close>.
\<close>

definition goto_direct ::
  "scanner_config \<Rightarrow> position \<Rightarrow> speed_arg option \<Rightarrow> bool \<Rightarrow> unit action" where
  "goto_direct cfg new_pos spd quiet =
     bind (goto_begin cfg new_pos spd) (\<lambda>(old_pos, v).
       bind (goto_ramp cfg old_pos new_pos v) (\<lambda>_. goto_end old_pos quiet))"

definition retract :: "scanner_config \<Rightarrow> speed_arg option \<Rightarrow> unit action" where
  "retract cfg spd =
     (case parse_speed cfg spd of
        Inl e \<Rightarrow> raise e
      | Inr v \<Rightarrow>
          bind get_pos (\<lambda>current_pos.
            goto_direct cfg
              (coord X current_pos, coord Y current_pos, voltage_retract cfg (temp cfg))
              (Some (SpeedStr v)) False))"

definition goto ::
  "scanner_config \<Rightarrow> position \<Rightarrow> bool \<Rightarrow> speed_arg option \<Rightarrow> bool \<Rightarrow> unit action" where
  "goto cfg new_pos retract_first spd quiet =
     bind (goto_begin cfg new_pos spd) (\<lambda>(old_pos, v).
       bind
         (if \<not> retract_first then goto_ramp cfg old_pos new_pos v
          else
            bind (retract cfg (Some (SpeedNum v))) (\<lambda>_.
            bind get_pos (\<lambda>cur_pos.
            bind (goto_direct cfg (coord X new_pos, coord Y new_pos, coord Z cur_pos)
                    (Some (SpeedNum v)) False) (\<lambda>_.
            bind get_pos (\<lambda>cur_pos.
            goto_direct cfg (coord X cur_pos, coord Y cur_pos, coord Z new_pos)
              (Some (SpeedNum v)) False)))))
         (\<lambda>_. goto_end old_pos quiet))"

section \<open>Constructing a scanner\<close>







section \<open>Touchdown detection\<close>

text \<open>
  What \<^verbatim>\<open>check_for_td\<close> reads from its \<^verbatim>\<open>tdc_plot\<close> argument: the constants (as
  magnitudes in the capacitance unit of the plot), the prefactor of the CAP channel, the
  column \<^verbatim>\<open>data[:, 0, 0]\<close> and the planned \<^verbatim>\<open>heights\<close>; and the three attributes it
  writes. A slope string \<^verbatim>\<open>'{} {}/V'\<close> is modelled by the slope it prints. Counts and
  indices are natural numbers.
\<close>

record tdc_plot =
  max_delta_cap :: real
  initial_cap :: real
  max_slope :: real
  prefactor :: real
  N_fit_min :: nat
  N_fit_max :: nat
  N_window :: nat
  data :: "real list"
  heights :: "real list"
  plot_td_height :: "real option"
  pre_td_slope :: "real option"
  post_td_slope :: "real option"

text \<open>
  The result of one call: the returned flag, the attributes \<^verbatim>\<open>td_has_occurred\<close> and
  \<^verbatim>\<open>td_height\<close> of the scanner, the plot object as the call left it, and the messages logged.
\<close>

record td_outcome =
  returned :: bool
  td_has_occurred :: bool
  td_height :: "real option"
  plot_after :: tdc_plot
  td_log :: "log_msg list"

text \<open>
  \<^verbatim>\<open>fit_line\<close> is imported from \<^verbatim>\<open>utils\<close>; a call returns \<^verbatim>\<open>(p, rms)\<close> with
  \<^verbatim>\<open>p[0]\<close> the slope and \<^verbatim>\<open>p[1]\<close> the intercept, or raises. \<^verbatim>\<open>check_for_td\<close> is
  modelled for any such function.
\<close>

type_synonym line_fit = "(real \<times> real) \<times> real"

type_synonym fitter = "real list \<Rightarrow> real list \<Rightarrow> error + line_fit"

text \<open>The slice \<^verbatim>\<open>xs[a:b]\<close> for indices that are not negative.\<close>

definition slice :: "'a list \<Rightarrow> nat \<Rightarrow> nat \<Rightarrow> 'a list" where
  "slice xs a b = take (b - a) (drop a xs)"

text \<open>
  The signal of the CAP lock-in, \<^verbatim>\<open>abs(c * ureg(cap_unit) / prefactor) > Q_('5 V')\<close>.
  The sample is a numpy float: a zero prefactor divides it to \<open>inf\<close>, or to \<open>nan\<close> when the
  sample is zero too, and \<open>nan\<close> compares false.
\<close>

definition railing :: "real \<Rightarrow> real \<Rightarrow> bool" where
  "railing pref c = (if pref = 0 then c \<noteq> 0 else 5 < \<bar>c / pref\<bar>)"

text \<open>
  The safety checks under \<^verbatim>\<open>if pt > 1\<close>. They read \<^verbatim>\<open>cdata[pt]\<close> and then
  \<^verbatim>\<open>cdata[pt-1]\<close>; the first read raises when the column has no row \<open>pt\<close>.
\<close>

definition safety_gate :: "tdc_plot \<Rightarrow> real list \<Rightarrow> nat \<Rightarrow> error + log_msg option" where
  "safety_gate tp cdata pt =
     (if 1 < pt then
        (if length cdata \<le> pt then Inl IndexError
         else if list_ex (\<lambda>i. max_delta_cap tp < \<bar>cdata ! (pt - i) - initial_cap tp\<bar>) [0..<2]
           then Inr (Some WarnBridgeUnbalanced)
         else if list_ex (\<lambda>i. railing (prefactor tp) (cdata ! (pt - i))) [0..<2]
           then Inr (Some WarnLockinRailing)
         else Inr None)
      else Inr None)"

text \<open>
  The two fits at a partition boundary \<open>i\<close>: the line through
  \<^verbatim>\<open>hdata[pt-nwindow:i+1]\<close> and the line through \<^verbatim>\<open>hdata[i:]\<close> (\<open>lo\<close> is
  \<^verbatim>\<open>pt - nwindow\<close>). \<open>split_cost\<close> is \<^verbatim>\<open>rms0 + rms1\<close>.
\<close>

definition split_fits ::
  "fitter \<Rightarrow> real list \<Rightarrow> real list \<Rightarrow> nat \<Rightarrow> nat \<Rightarrow> error + (line_fit \<times> line_fit)" where
  "split_fits fit hdata cdata lo i =
     (case fit (slice hdata lo (i + 1)) (slice cdata lo (i + 1)) of
        Inl e \<Rightarrow> Inl e
      | Inr f0 \<Rightarrow>
          (case fit (drop i hdata) (drop i cdata) of
             Inl e \<Rightarrow> Inl e
           | Inr f1 \<Rightarrow> Inr (f0, f1)))"

definition split_cost ::
  "fitter \<Rightarrow> real list \<Rightarrow> real list \<Rightarrow> nat \<Rightarrow> nat \<Rightarrow> error + real" where
  "split_cost fit hdata cdata lo i =
     (case split_fits fit hdata cdata lo i of
        Inl e \<Rightarrow> Inl e
      | Inr (f0, f1) \<Rightarrow> Inr (snd f0 + snd f1))"

text \<open>
  The search loop over the partition boundaries, carrying \<^verbatim>\<open>(imin, rmsmin)\<close>;
  \<open>None\<close> stands for the initial \<^verbatim>\<open>np.inf\<close>.
\<close>

fun td_search ::
  "fitter \<Rightarrow> real list \<Rightarrow> real list \<Rightarrow> nat \<Rightarrow> nat list \<Rightarrow> nat \<times> real option
     \<Rightarrow> error + (nat \<times> real option)" where
  "td_search fit hdata cdata lo [] best = Inr best"
| "td_search fit hdata cdata lo (i # rest) (imin, rmsmin) =
     (case split_cost fit hdata cdata lo i of
        Inl e \<Rightarrow> Inl e
      | Inr rms \<Rightarrow>
          if (case rmsmin of None \<Rightarrow> True | Some r \<Rightarrow> rms < r)
          then td_search fit hdata cdata lo rest (i, Some rms)
          else td_search fit hdata cdata lo rest (imin, rmsmin))"

definition td_candidates :: "tdc_plot \<Rightarrow> nat \<Rightarrow> nat list" where
  "td_candidates tp pt = [pt - N_window tp + N_fit_min tp ..< pt - N_fit_min tp]"

definition changepoint :: "fitter \<Rightarrow> tdc_plot \<Rightarrow> nat \<Rightarrow> error + (nat \<times> real option)" where
  "changepoint fit tp pt =
     td_search fit (take (pt + 1) (heights tp)) (take (pt + 1) (data tp)) (pt - N_window tp)
       (td_candidates tp pt) (pt - N_window tp + N_fit_min tp, None)"

text \<open>The guard of the search: \<^verbatim>\<open>pt < len(tdc_plot.heights) and pt > nwindow + 10\<close>.\<close>

definition search_runs :: "tdc_plot \<Rightarrow> nat \<Rightarrow> bool" where
  "search_runs tp pt = (pt < length (heights tp) \<and> N_window tp + 10 < pt)"

definition quit_outcome :: "tdc_plot \<Rightarrow> log_msg list \<Rightarrow> td_outcome" where
  "quit_outcome tp msgs =
     \<lparr>returned = True, td_has_occurred = False, td_height = None, plot_after = tp,
      td_log = msgs\<rparr>"

definition continue_outcome :: "tdc_plot \<Rightarrow> td_outcome" where
  "continue_outcome tp =
     \<lparr>returned = False, td_has_occurred = False, td_height = None, plot_after = tp,
      td_log = []\<rparr>"

definition detected_outcome :: "tdc_plot \<Rightarrow> real \<times> real \<Rightarrow> real \<times> real \<Rightarrow> td_outcome" where
  "detected_outcome tp p0 p1 =
     (let h = (snd p1 - snd p0) / (fst p0 - fst p1) in
      \<lparr>returned = True, td_has_occurred = True, td_height = Some h,
       plot_after = tp\<lparr>plot_td_height := Some h, pre_td_slope := Some (fst p0),
                       post_td_slope := Some (fst p1)\<rparr>,
       td_log = [InfoTouchdownAt h]\<rparr>)"

definition exhausted_outcome :: "tdc_plot \<Rightarrow> td_outcome" where
  "exhausted_outcome tp =
     \<lparr>returned = True, td_has_occurred = False, td_height = None,
      plot_after = tp\<lparr>plot_td_height := None, pre_td_slope := None, post_td_slope := None\<rparr>,
      td_log = [InfoNoTouchdownInRange]\<rparr>"

text \<open>
  \<^verbatim>\<open>Scanner.check_for_td(tdc_plot, counter)\<close> at \<^verbatim>\<open>pt = counter.count\<close>. The calls that
  draw the fitted lines on the plot are left out.
\<close>

definition check_for_td :: "fitter \<Rightarrow> tdc_plot \<Rightarrow> nat \<Rightarrow> error + td_outcome" where
  "check_for_td fit tp pt =
     (let cdata = take (pt + 1) (data tp);
          hdata = take (pt + 1) (heights tp)
      in case safety_gate tp cdata pt of
           Inl e \<Rightarrow> Inl e
         | Inr (Some w) \<Rightarrow> Inr (quit_outcome tp [w])
         | Inr None \<Rightarrow>
             if search_runs tp pt then
               (case changepoint fit tp pt of
                  Inl e \<Rightarrow> Inl e
                | Inr (imin, rmsmin) \<Rightarrow>
                    (case split_fits fit hdata cdata (pt - N_window tp) imin of
                       Inl e \<Rightarrow> Inl e
                     | Inr ((p0, r0), (p1, r1)) \<Rightarrow>
                         if max_slope tp < \<bar>fst p0\<bar>
                           then Inr (quit_outcome tp [WarnSlopeTooBig (fst p0)])
                         else if max_slope tp < \<bar>fst p0 - fst p1\<bar>
                           then Inr (detected_outcome tp p0 p1)
                         else Inr (continue_outcome tp)))
             else if length (heights tp) \<le> pt then Inr (exhausted_outcome tp)
             else Inr (continue_outcome tp))"

text \<open>The residual sum of squares of the line \<open>a * x + b\<close> on a segment.\<close>

definition rss :: "real list \<Rightarrow> real list \<Rightarrow> real \<Rightarrow> real \<Rightarrow> real" where
  "rss xs ys a b = sum_list (map (\<lambda>(x, y). (y - (a * x + b))\<^sup>2) (zip xs ys))"

text \<open>
  Modelled from the spec: \<^verbatim>\<open>utils.fit_line\<close>, which is not among the sources. The
  specification has it fit a least-squares line to a segment and give the residual sum of
  squares. The line is given by the normal equations; where they do not determine a line
  (vectors of different lengths, fewer than two distinct abscissae) the model raises.
\<close>

definition fit_line :: fitter where
  "fit_line xs ys =
     (let n = real (length xs);
          sx = sum_list xs;
          sy = sum_list ys;
          sxx = sum_list (map (\<lambda>x. x * x) xs);
          sxy = sum_list (map (\<lambda>(x, y). x * y) (zip xs ys));
          den = n * sxx - sx * sx
      in if length xs = length ys \<and> den \<noteq> 0 then
           let a = (n * sxy - sx * sy) / den;
               b = (sy - a * sx) / n
           in Inr ((a, b), rss xs ys a b)
         else Inl FitError)"

section \<open>Notions used in the statements\<close>

text \<open>A value is within the limits of an axis when \<^verbatim>\<open>goto\<close>'s comparison lets it pass.\<close>

definition within_limits :: "real list \<Rightarrow> real \<Rightarrow> bool" where
  "within_limits lims v = (py_min lims \<le> v \<and> v \<le> py_max lims)"



text \<open>
  A fit \<open>((a, b), r)\<close> is a least-squares fit of a segment when \<open>r\<close> is the residual
  sum of squares of the line \<open>a * x + b\<close> and no line has a smaller one.
\<close>

definition least_squares :: "real list \<Rightarrow> real list \<Rightarrow> line_fit \<Rightarrow> bool" where
  "least_squares xs ys f =
     (snd f = rss xs ys (fst (fst f)) (snd (fst f))
      \<and> (\<forall>a' b'. rss xs ys (fst (fst f)) (snd (fst f)) \<le> rss xs ys a' b'))"

text \<open>A series whose signal is linear in the height: \<open>c = a * h + b\<close> at every step.\<close>

definition linear_series :: "real \<Rightarrow> real \<Rightarrow> tdc_plot \<Rightarrow> bool" where
  "linear_series a b tp = list_all (\<lambda>(h, c). c = a * h + b) (zip (heights tp) (data tp))"

text \<open>Configurations and states on which the theorems are instantiated.\<close>

definition demo_config :: scanner_config where
  "demo_config = \<lparr>temp = RT, voltage_limits = (\<lambda>m ax. [-10, 10]),
     voltage_retract = (\<lambda>m. -5), speed = 1, daq_rate = 2\<rparr>"

definition fast_config :: scanner_config where
  "fast_config = \<lparr>temp = RT, voltage_limits = (\<lambda>m ax. [-10, 10]),
     voltage_retract = (\<lambda>m. -5), speed = 1, daq_rate = 10\<rparr>"


definition demo_state :: scanner_state where
  "demo_state = \<lparr>ao_volts = (1, 2, 3), ao_writes = [], cached_position = (0, 0, 0),
     log_out = []\<rparr>"

text \<open>
  Touchdown series on which the theorems are instantiated: a signal that is flat and then
  rises with slope 1 from height 12; one that rises with slope 2 and then levels off; and
  one that jumps at its second sample.
\<close>

definition kink_plot :: tdc_plot where
  "kink_plot = \<lparr>max_delta_cap = 100, initial_cap = 0, max_slope = 1/2, prefactor = 1,
     N_fit_min = 1, N_fit_max = 3, N_window = 4,
     data = [0, 0, 0, 0, 0, 0, 0, 0, 0, 0, 0, 0, 0, 1, 2, 3],
     heights = [0, 1, 2, 3, 4, 5, 6, 7, 8, 9, 10, 11, 12, 13, 14, 15, 16],
     plot_td_height = None, pre_td_slope = None, post_td_slope = None\<rparr>"

definition steep_plot :: tdc_plot where
  "steep_plot = \<lparr>max_delta_cap = 100, initial_cap = 0, max_slope = 1/2, prefactor = 10,
     N_fit_min = 1, N_fit_max = 3, N_window = 4,
     data = [0, 0, 0, 0, 0, 0, 0, 0, 0, 0, 0, 2, 4, 6, 6, 6],
     heights = [0, 1, 2, 3, 4, 5, 6, 7, 8, 9, 10, 11, 12, 13, 14, 15, 16],
     plot_td_height = None, pre_td_slope = None, post_td_slope = None\<rparr>"

definition early_plot :: tdc_plot where
  "early_plot = \<lparr>max_delta_cap = 1, initial_cap = 0, max_slope = 1/2, prefactor = 10,
     N_fit_min = 1, N_fit_max = 3, N_window = 4,
     data = [0, 100, 100],
     heights = [0, 1, 2, 3, 4],
     plot_td_height = None, pre_td_slope = None, post_td_slope = None\<rparr>"

text \<open>
  A series of slope 2 with one more data row than planned heights, and a constant series
  with one data row per planned height.
\<close>

definition flat_plot :: tdc_plot where
  "flat_plot = \<lparr>max_delta_cap = 100, initial_cap = 0, max_slope = 5/2, prefactor = 10,
     N_fit_min = 1, N_fit_max = 3, N_window = 4,
     data = [1, 3, 5, 7, 9, 11, 13, 15, 17, 19, 21, 23, 25, 27, 29, 31, 31],
     heights = [0, 1, 2, 3, 4, 5, 6, 7, 8, 9, 10, 11, 12, 13, 14, 15],
     plot_td_height = None, pre_td_slope = None, post_td_slope = None\<rparr>"

definition aligned_plot :: tdc_plot where
  "aligned_plot = \<lparr>max_delta_cap = 1, initial_cap = 7, max_slope = 1/2, prefactor = 10,
     N_fit_min = 1, N_fit_max = 3, N_window = 4,
     data = [7, 7, 7],
     heights = [0, 1, 2],
     plot_td_height = None, pre_td_slope = None, post_td_slope = None\<rparr>"

text \<open>The first series with a minimum fit length of half the window.\<close>

definition narrow_plot :: tdc_plot where
  "narrow_plot = kink_plot\<lparr>N_fit_min := 2\<rparr>"

section \<open>The ramp planner: sample count, endpoints, speed\<close>








text \<open>
  C7. The code logs the warning and goes on with the requested speed. With a configured
  speed of 1 V/s and a rate of 10 Hz, a move of 1 V requested at 2 V/s is planned with the
  7 samples of 2 V/s; at the configured speed the same move takes 12 samples.
\<close>

theorem make_ramp_speed_not_clamped:
  "make_ramp fast_config (0, 0, 0) (1, 0, 0) 2 =
     Inr ([WarnRampSpeedMax 1],
          [[0, 1/6, 1/3, 1/2, 2/3, 5/6, 1], [0, 0, 0, 0, 0, 0, 0], [0, 0, 0, 0, 0, 0, 0]])
   \<and> (\<exists>rows. make_ramp fast_config (0, 0, 0) (1, 0, 0) (speed fast_config) = Inr ([], rows)
         \<and> length (rows ! 0) = 12)"
  by (simp add: make_ramp_def fast_config_def max_ramp_distance_def py_int_def linspace_def
      Let_def upt_conv_Cons numeral_eq_Suc)

section \<open>Moving the scanner: validation before any write\<close>

lemma py_min_Min: "lims \<noteq> [] \<Longrightarrow> py_min lims = Min (set lims)"
  by (cases lims) (simp_all add: Min.set_eq_fold [symmetric])

lemma py_max_Max: "lims \<noteq> [] \<Longrightarrow> py_max lims = Max (set lims)"
  by (cases lims) (simp_all add: Max.set_eq_fold [symmetric])

lemma sort_eq_Nil: "(sort (l :: real list) = []) = (l = [])"
  by (metis length_sort length_0_conv)

lemma py_min_sort: "py_min (sort lims) = py_min lims"
proof (cases "lims = []")
  case True
  then show ?thesis by simp
next
  case False
  then have "sort lims \<noteq> []" by (simp add: sort_eq_Nil)
  then show ?thesis using False by (simp add: py_min_Min)
qed

lemma py_max_sort: "py_max (sort lims) = py_max lims"
proof (cases "lims = []")
  case True
  then show ?thesis by simp
next
  case False
  then have "sort lims \<noteq> []" by (simp add: sort_eq_Nil)
  then show ?thesis using False by (simp add: py_max_Max)
qed

lemma check_limits_reject:
  assumes "\<And>ax. voltage_limits cfg (temp cfg) ax \<noteq> []"
    and "bad \<in> set axs"
    and "\<not> within_limits (voltage_limits cfg (temp cfg) bad) (coord bad new_pos)"
  shows "\<exists>ax. ax \<in> set axs \<and> check_limits cfg new_pos axs
               = Some (OutOfRange ax (sort (voltage_limits cfg (temp cfg) ax)))
             \<and> \<not> within_limits (voltage_limits cfg (temp cfg) ax) (coord ax new_pos)"
  using assms(2)
proof (induction axs)
  case Nil
  then show ?case by simp
next
  case (Cons a axs)
  show ?case
  proof (cases "within_limits (voltage_limits cfg (temp cfg) a) (coord a new_pos)")
    case True
    then have "bad \<noteq> a" using assms(3) by auto
    then have "bad \<in> set axs" using Cons.prems by simp
    then obtain ax where "ax \<in> set axs" "check_limits cfg new_pos axs
               = Some (OutOfRange ax (sort (voltage_limits cfg (temp cfg) ax)))"
        "\<not> within_limits (voltage_limits cfg (temp cfg) ax) (coord ax new_pos)"
      using Cons.IH by blast
    then show ?thesis using True assms(1)[of a]
      by (auto simp: Let_def sort_eq_Nil within_limits_def py_min_sort py_max_sort)
  next
    case False
    then show ?thesis using assms(1)[of a]
      by (auto simp: Let_def sort_eq_Nil within_limits_def py_min_sort py_max_sort)
  qed
qed

lemma check_limits_accept:
  assumes "\<And>ax. voltage_limits cfg (temp cfg) ax \<noteq> []"
    and "\<And>ax. ax \<in> set axs \<Longrightarrow> within_limits (voltage_limits cfg (temp cfg) ax) (coord ax new_pos)"
  shows "check_limits cfg new_pos axs = None"
  using assms(2)
proof (induction axs)
  case Nil
  then show ?case by simp
next
  case (Cons a axs)
  have "within_limits (voltage_limits cfg (temp cfg) a) (coord a new_pos)"
    using Cons.prems by simp
  moreover have "check_limits cfg new_pos axs = None"
    using Cons.IH Cons.prems by simp
  ultimately show ?case using assms(1)[of a]
    by (simp add: Let_def sort_eq_Nil within_limits_def py_min_sort py_max_sort not_less)
qed

lemma axis_cases: "ax \<in> set [X, Y, Z]"
  by (cases ax) simp_all

lemma get_pos_frame:
  "ao_writes (snd (get_pos s)) = ao_writes s"
  "ao_volts (snd (get_pos s)) = ao_volts s"
  "log_out (snd (get_pos s)) = log_out s"
  by (simp_all add: get_pos_def)

lemma goto_begin_reject:
  assumes "\<And>ax. voltage_limits cfg (temp cfg) ax \<noteq> []"
    and "\<not> within_limits (voltage_limits cfg (temp cfg) bad) (coord bad new_pos)"
  shows "\<exists>e. goto_begin cfg new_pos spd s = (Inl e, snd (get_pos s))
     \<and> (case spd of Some (SpeedNum v) \<Rightarrow> e = DimensionalityError
         | _ \<Rightarrow> (\<exists>ax. e = OutOfRange ax (sort (voltage_limits cfg (temp cfg) ax))
               \<and> \<not> within_limits (voltage_limits cfg (temp cfg) ax) (coord ax new_pos)))"
proof -
  obtain ax where ax: "check_limits cfg new_pos [X, Y, Z]
               = Some (OutOfRange ax (sort (voltage_limits cfg (temp cfg) ax)))"
             "\<not> within_limits (voltage_limits cfg (temp cfg) ax) (coord ax new_pos)"
    using check_limits_reject[OF assms(1) axis_cases assms(2)] by blast
  show ?thesis
  proof (cases spd)
    case None
    then show ?thesis using ax
      by (auto simp: goto_begin_def bind_def raise_def get_pos_def)
  next
    case (Some a)
    then show ?thesis using ax
      by (cases a) (auto simp: goto_begin_def bind_def raise_def get_pos_def)
  qed
qed

lemma goto_rejects:
  assumes "\<And>ax. voltage_limits cfg (temp cfg) ax \<noteq> []"
    and "\<not> within_limits (voltage_limits cfg (temp cfg) bad) (coord bad new_pos)"
  shows "\<exists>e s'. goto cfg new_pos retract_first spd quiet s = (Inl e, s')
     \<and> ao_writes s' = ao_writes s \<and> ao_volts s' = ao_volts s
     \<and> (case spd of Some (SpeedNum v) \<Rightarrow> e = DimensionalityError
         | _ \<Rightarrow> (\<exists>ax. e = OutOfRange ax (sort (voltage_limits cfg (temp cfg) ax))
               \<and> \<not> within_limits (voltage_limits cfg (temp cfg) ax) (coord ax new_pos)))"
proof -
  obtain e where e: "goto_begin cfg new_pos spd s = (Inl e, snd (get_pos s))"
     "(case spd of Some (SpeedNum v) \<Rightarrow> e = DimensionalityError
         | _ \<Rightarrow> (\<exists>ax. e = OutOfRange ax (sort (voltage_limits cfg (temp cfg) ax))
               \<and> \<not> within_limits (voltage_limits cfg (temp cfg) ax) (coord ax new_pos)))"
    using goto_begin_reject[OF assms] by blast
  have "goto cfg new_pos retract_first spd quiet s = (Inl e, snd (get_pos s))"
    using e(1) by (simp add: goto_def bind_def)
  then show ?thesis using e(2) get_pos_frame(1,2) by blast
qed

text \<open>
  C1. Whenever some axis of the target lies outside the limits of the active mode,
  \<^verbatim>\<open>goto\<close> raises, with or without \<^verbatim>\<open>retract_first\<close>, and leaves the analog outputs
  as they were: no ramp has been written. With a speed argument it can read (none, or a
  string with units) the exception is the out-of-range error of an offending axis, with
  that axis's sorted limits.
\<close>

theorem goto_out_of_range:
  assumes "\<And>ax. voltage_limits cfg (temp cfg) ax \<noteq> []"
    and "\<not> within_limits (voltage_limits cfg (temp cfg) bad) (coord bad new_pos)"
  shows "\<exists>e s'. goto cfg new_pos retract_first spd quiet s = (Inl e, s')
     \<and> ao_writes s' = ao_writes s \<and> ao_volts s' = ao_volts s
     \<and> (case spd of Some (SpeedNum v) \<Rightarrow> e = DimensionalityError
         | _ \<Rightarrow> (\<exists>ax. e = OutOfRange ax (sort (voltage_limits cfg (temp cfg) ax))
               \<and> \<not> within_limits (voltage_limits cfg (temp cfg) ax) (coord ax new_pos)))"
  using goto_rejects[OF assms] .

theorem goto_out_of_range_witness:
  "\<exists>s'. goto demo_config (0, 0, 11) True None False demo_state = (Inl (OutOfRange Z [-10, 10]), s')
     \<and> ao_writes s' = [] \<and> ao_volts s' = (1, 2, 3)"
proof -
  have ne: "\<And>ax. voltage_limits demo_config (temp demo_config) ax \<noteq> []"
    by (simp add: demo_config_def)
  have bad: "\<not> within_limits (voltage_limits demo_config (temp demo_config) Z) (coord Z (0, 0, 11))"
    by (simp add: demo_config_def within_limits_def)
  obtain e s' where g: "goto demo_config (0, 0, 11) True None False demo_state = (Inl e, s')"
    "ao_writes s' = ao_writes demo_state" "ao_volts s' = ao_volts demo_state"
    "\<exists>ax. e = OutOfRange ax (sort (voltage_limits demo_config (temp demo_config) ax))
        \<and> \<not> within_limits (voltage_limits demo_config (temp demo_config) ax) (coord ax (0, 0, 11))"
    using goto_out_of_range[OF ne bad, of True None False demo_state] by auto
  then obtain ax where ax: "e = OutOfRange ax (sort (voltage_limits demo_config (temp demo_config) ax))"
     "\<not> within_limits (voltage_limits demo_config (temp demo_config) ax) (coord ax (0, 0, 11))"
    by blast
  have "ax = Z" using ax(2) by (cases ax) (simp_all add: demo_config_def within_limits_def)
  then have "e = OutOfRange Z [-10, 10]" using ax(1) by (simp add: demo_config_def)
  then show ?thesis using g(1,2,3) by (simp add: demo_state_def)
qed


section \<open>A direct move and construction\<close>

lemma goto_begin_accept:
  assumes "\<And>ax. voltage_limits cfg (temp cfg) ax \<noteq> []"
    and "\<And>ax. within_limits (voltage_limits cfg (temp cfg) ax) (coord ax new_pos)"
    and "parse_speed cfg spd = Inr v"
  shows "goto_begin cfg new_pos spd s = (Inr (rounded_reading s, v), snd (get_pos s))"
proof -
  have "check_limits cfg new_pos [X, Y, Z] = None"
    using check_limits_accept[OF assms(1)] assms(2) by blast
  then show ?thesis using assms(3)
    by (simp add: goto_begin_def bind_def ret_def get_pos_def)
qed







lemma goto_retract_first_stops:
  assumes "\<And>ax. voltage_limits cfg (temp cfg) ax \<noteq> []"
    and "\<And>ax. within_limits (voltage_limits cfg (temp cfg) ax) (coord ax new_pos)"
    and "parse_speed cfg spd = Inr v"
  shows "goto cfg new_pos True spd quiet s = (Inl DimensionalityError, snd (get_pos s))"
  using goto_begin_accept[OF assms]
  by (simp add: goto_def bind_def retract_def raise_def)

text \<open>
  C2. \<^verbatim>\<open>goto\<close> hands its speed, by then a bare float, to \<^verbatim>\<open>retract\<close>, which reads it as
  a quantity and converts it to V/s. The call with \<^verbatim>\<open>retract_first=True\<close> on a valid
  target ends there with \<^verbatim>\<open>DimensionalityError\<close>, and no move has been made
  (the lemma above: for every target within the limits). The instance is a scanner at
  (1, 2, 3) sent to (0, 0, 1).
\<close>

theorem goto_retract_first_raises:
  "goto demo_config (0, 0, 1) True None False demo_state =
     (Inl DimensionalityError, demo_state\<lparr>cached_position := (1, 2, 3)\<rparr>)"
  by (simp add: goto_def goto_begin_def bind_def ret_def raise_def get_pos_def rounded_reading_def
      retract_def demo_config_def demo_state_def np_round3_def rint_def Let_def)

section \<open>Touchdown detection: the decision\<close>

lemma check_for_td_search:
  assumes "safety_gate tp (take (pt + 1) (data tp)) pt = Inr None"
    and "search_runs tp pt"
    and "changepoint fit tp pt = Inr (imin, rmsmin)"
    and "split_fits fit (take (pt + 1) (heights tp)) (take (pt + 1) (data tp)) (pt - N_window tp) imin
           = Inr ((p0, r0), (p1, r1))"
  shows "check_for_td fit tp pt =
           (if max_slope tp < \<bar>fst p0\<bar> then Inr (quit_outcome tp [WarnSlopeTooBig (fst p0)])
            else if max_slope tp < \<bar>fst p0 - fst p1\<bar> then Inr (detected_outcome tp p0 p1)
            else Inr (continue_outcome tp))"
  using assms by (simp add: check_for_td_def Let_def)

text \<open>
  C3. When the search runs and the slope of the line before the split is within
  \<open>max_slope\<close>, \<^verbatim>\<open>check_for_td\<close> sets \<^verbatim>\<open>td_has_occurred\<close> (and returns it) exactly when
  the two slopes differ by more than \<open>max_slope\<close>; the height it then reports is
  \<open>(intercept_post - intercept_pre) / (slope_pre - slope_post)\<close>, whose denominator is
  not zero, and the plot gets the height and the two slopes. This holds for every
  \<^verbatim>\<open>fit_line\<close>.
\<close>

theorem check_for_td_detection:
  assumes "safety_gate tp (take (pt + 1) (data tp)) pt = Inr None"
    and "search_runs tp pt"
    and "changepoint fit tp pt = Inr (imin, rmsmin)"
    and "split_fits fit (take (pt + 1) (heights tp)) (take (pt + 1) (data tp)) (pt - N_window tp) imin
           = Inr ((p0, r0), (p1, r1))"
    and "\<bar>fst p0\<bar> \<le> max_slope tp"
  shows "\<exists>out. check_for_td fit tp pt = Inr out
     \<and> td_has_occurred out = (max_slope tp < \<bar>fst p0 - fst p1\<bar>)
     \<and> returned out = td_has_occurred out
     \<and> (td_has_occurred out \<longrightarrow>
           fst p0 \<noteq> fst p1
         \<and> td_height out = Some ((snd p1 - snd p0) / (fst p0 - fst p1))
         \<and> plot_td_height (plot_after out) = td_height out
         \<and> pre_td_slope (plot_after out) = Some (fst p0)
         \<and> post_td_slope (plot_after out) = Some (fst p1))
     \<and> (\<not> td_has_occurred out \<longrightarrow> td_height out = None \<and> plot_after out = tp)"
proof (cases "max_slope tp < \<bar>fst p0 - fst p1\<bar>")
  case True
  then have ne: "fst p0 \<noteq> fst p1" using assms(5) by auto
  have "check_for_td fit tp pt = Inr (detected_outcome tp p0 p1)"
    using check_for_td_search[OF assms(1-4)] assms(5) True by simp
  then show ?thesis using True ne by (simp add: detected_outcome_def Let_def)
next
  case False
  have "check_for_td fit tp pt = Inr (continue_outcome tp)"
    using check_for_td_search[OF assms(1-4)] assms(5) False by simp
  then show ?thesis using False by (simp add: continue_outcome_def)
qed

lemma kink_plot_facts:
  "safety_gate kink_plot (take (15 + 1) (data kink_plot)) 15 = Inr None"
  "search_runs kink_plot 15"
  "changepoint fit_line kink_plot 15 = Inr (12, Some 0)"
  "split_fits fit_line (take (15 + 1) (heights kink_plot)) (take (15 + 1) (data kink_plot))
       (15 - N_window kink_plot) 12 = Inr (((0, 0), 0), ((1, -12), 0))"
  by code_simp+

theorem check_for_td_detection_witness:
  "\<exists>out. check_for_td fit_line kink_plot 15 = Inr out
     \<and> td_has_occurred out \<and> returned out \<and> td_height out = Some 12
     \<and> plot_td_height (plot_after out) = Some 12
     \<and> pre_td_slope (plot_after out) = Some 0 \<and> post_td_slope (plot_after out) = Some 1"
proof -
  have s: "\<bar>fst (0::real, 0::real)\<bar> \<le> max_slope kink_plot"
    by (simp add: kink_plot_def)
  have m: "max_slope kink_plot < \<bar>fst (0::real, 0::real) - fst (1::real, - 12::real)\<bar>"
    by (simp add: kink_plot_def)
  show ?thesis
    using check_for_td_detection[OF kink_plot_facts s] m by auto
qed

text \<open>
  C10. \<open>max_slope\<close> bounds the slope before the split and is also the detection
  threshold. When the slope before the split exceeds it, the call returns True with
  \<^verbatim>\<open>td_has_occurred\<close> False and no height, whatever the slope after the split is: the
  detection branch is not reached. The instance shows a series where the difference of the
  slopes exceeds the threshold as well.
\<close>

theorem check_for_td_slope_abort:
  assumes "safety_gate tp (take (pt + 1) (data tp)) pt = Inr None"
    and "search_runs tp pt"
    and "changepoint fit tp pt = Inr (imin, rmsmin)"
    and "split_fits fit (take (pt + 1) (heights tp)) (take (pt + 1) (data tp)) (pt - N_window tp) imin
           = Inr ((p0, r0), (p1, r1))"
    and "max_slope tp < \<bar>fst p0\<bar>"
  shows "check_for_td fit tp pt =
           Inr \<lparr>returned = True, td_has_occurred = False, td_height = None, plot_after = tp,
                td_log = [WarnSlopeTooBig (fst p0)]\<rparr>"
  using check_for_td_search[OF assms(1-4)] assms(5) by (simp add: quit_outcome_def)


lemma steep_plot_facts:
  "safety_gate steep_plot (take (15 + 1) (data steep_plot)) 15 = Inr None"
  "search_runs steep_plot 15"
  "changepoint fit_line steep_plot 15 = Inr (13, Some 0)"
  "split_fits fit_line (take (15 + 1) (heights steep_plot)) (take (15 + 1) (data steep_plot))
       (15 - N_window steep_plot) 13 = Inr (((2, -20), 0), ((0, 6), 0))"
  by code_simp+

theorem check_for_td_slope_abort_witness:
  "max_slope steep_plot < \<bar>fst (2::real, - 20::real) - fst (0::real, 6::real)\<bar>
   \<and> check_for_td fit_line steep_plot 15 =
       Inr \<lparr>returned = True, td_has_occurred = False, td_height = None, plot_after = steep_plot,
            td_log = [WarnSlopeTooBig 2]\<rparr>"
proof -
  have m: "max_slope steep_plot < \<bar>fst (2::real, - 20::real)\<bar>"
    by (simp add: steep_plot_def)
  have d: "max_slope steep_plot < \<bar>fst (2::real, - 20::real) - fst (0::real, 6::real)\<bar>"
    by (simp add: steep_plot_def)
  show ?thesis
    using check_for_td_slope_abort[OF steep_plot_facts m] d by simp
qed

lemma safety_gate_fires:
  assumes "1 < pt" and "pt < length (data tp)"
    and "list_ex (\<lambda>i. max_delta_cap tp < \<bar>data tp ! (pt - i) - initial_cap tp\<bar>
                    \<or> railing (prefactor tp) (data tp ! (pt - i))) [0..<2]"
  shows "\<exists>w. (w = WarnBridgeUnbalanced \<or> w = WarnLockinRailing)
           \<and> safety_gate tp (take (pt + 1) (data tp)) pt = Inr (Some w)"
proof -
  have two: "[0..<2] = [0, Suc 0]" by (simp add: upt_conv_Cons numeral_eq_Suc)
  have n0: "take (pt + 1) (data tp) ! pt = data tp ! pt" by simp
  have n1: "take (pt + 1) (data tp) ! (pt - Suc 0) = data tp ! (pt - Suc 0)" by simp
  have len: "\<not> length (take (pt + 1) (data tp)) \<le> pt" using assms(2) by simp
  show ?thesis
    using assms(1,3) len unfolding safety_gate_def two
    by (auto simp: n1)
qed

text \<open>
  C5, as amended. At a step index above 1 whose sample exists, if one of the last two
  samples is further than \<open>max_delta_cap\<close> from \<open>initial_cap\<close>, or rails the lock-in,
  \<^verbatim>\<open>check_for_td\<close> returns True with one warning and nothing detected. The result is the
  same for every \<^verbatim>\<open>fit_line\<close>, also one that always raises: no fit is made.
\<close>

theorem check_for_td_safety_gate:
  assumes "1 < pt" and "pt < length (data tp)"
    and "list_ex (\<lambda>i. max_delta_cap tp < \<bar>data tp ! (pt - i) - initial_cap tp\<bar>
                    \<or> railing (prefactor tp) (data tp ! (pt - i))) [0..<2]"
  shows "\<exists>w. (w = WarnBridgeUnbalanced \<or> w = WarnLockinRailing)
     \<and> (\<forall>fit. check_for_td fit tp pt =
           Inr \<lparr>returned = True, td_has_occurred = False, td_height = None, plot_after = tp,
                td_log = [w]\<rparr>)"
proof -
  obtain w where w: "w = WarnBridgeUnbalanced \<or> w = WarnLockinRailing"
    "safety_gate tp (take (pt + 1) (data tp)) pt = Inr (Some w)"
    using safety_gate_fires[OF assms] by blast
  have "check_for_td fit tp pt = Inr (quit_outcome tp [w])" for fit
    using w(2) by (simp add: check_for_td_def)
  then show ?thesis using w(1) by (auto simp: quit_outcome_def)
qed

theorem check_for_td_safety_gate_witness:
  "check_for_td (\<lambda>xs ys. Inl FitError) early_plot 2 =
     Inr \<lparr>returned = True, td_has_occurred = False, td_height = None, plot_after = early_plot,
          td_log = [WarnBridgeUnbalanced]\<rparr>"
proof -
  have h: "1 < (2::nat)" "2 < length (data early_plot)"
    "list_ex (\<lambda>i. max_delta_cap early_plot < \<bar>data early_plot ! (2 - i) - initial_cap early_plot\<bar>
                    \<or> railing (prefactor early_plot) (data early_plot ! (2 - i))) [0..<2]"
    by (simp_all add: early_plot_def upt_conv_Cons numeral_eq_Suc)
  obtain w where w: "w = WarnBridgeUnbalanced \<or> w = WarnLockinRailing"
     "\<forall>fit. check_for_td fit early_plot 2 =
           Inr \<lparr>returned = True, td_has_occurred = False, td_height = None, plot_after = early_plot,
                td_log = [w]\<rparr>"
    using check_for_td_safety_gate[OF h] by blast
  have g: "safety_gate early_plot (take (2 + 1) (data early_plot)) 2 = Inr (Some WarnBridgeUnbalanced)"
    by code_simp
  have "check_for_td fit_line early_plot 2 = Inr (quit_outcome early_plot [WarnBridgeUnbalanced])"
    using g by (simp add: check_for_td_def)
  then have "w = WarnBridgeUnbalanced" using w(2) by (simp add: quit_outcome_def)
  then show ?thesis using w(2) by simp
qed

text \<open>
  C5 as stated fails at step index 1: two samples exist, the last one is 100 away from
  the initial value with a maximum delta of 1, and the call returns False.
\<close>

theorem check_for_td_two_samples_no_gate:
  "length (take (1 + 1) (data early_plot)) = 2
   \<and> max_delta_cap early_plot < \<bar>data early_plot ! 1 - initial_cap early_plot\<bar>
   \<and> check_for_td fit_line early_plot 1 =
       Inr \<lparr>returned = False, td_has_occurred = False, td_height = None, plot_after = early_plot,
            td_log = []\<rparr>"
  by (simp add: early_plot_def check_for_td_def safety_gate_def search_runs_def
      continue_outcome_def)

section \<open>Touchdown detection: the changepoint search\<close>

lemma td_search_first_min:
  assumes "td_search fit h c lo cands (i0, r0) = Inr (imin, rmsmin)"
  shows "(cands = [] \<longrightarrow> imin = i0 \<and> rmsmin = r0)
     \<and> (cands \<noteq> [] \<longrightarrow> (\<exists>m. rmsmin = Some m
           \<and> (\<forall>j\<in>set cands. \<exists>r. split_cost fit h c lo j = Inr r \<and> m \<le> r)
           \<and> (case r0 of None \<Rightarrow> True | Some m0 \<Rightarrow> m \<le> m0)
           \<and> ((r0 = Some m \<and> imin = i0)
              \<or> ((case r0 of None \<Rightarrow> True | Some m0 \<Rightarrow> m < m0)
                 \<and> (\<exists>pre post. cands = pre @ imin # post
                      \<and> split_cost fit h c lo imin = Inr m
                      \<and> (\<forall>j\<in>set pre. \<exists>r. split_cost fit h c lo j = Inr r \<and> m < r))))))"
  using assms
proof (induction cands arbitrary: i0 r0)
  case Nil
  then show ?case by simp
next
  case (Cons i rest)
  from Cons.prems obtain rms where rms: "split_cost fit h c lo i = Inr rms"
    by (auto split: sum.splits)
  show ?case
  proof (cases "case r0 of None \<Rightarrow> True | Some r \<Rightarrow> rms < r")
    case True
    then have rec: "td_search fit h c lo rest (i, Some rms) = Inr (imin, rmsmin)"
      using Cons.prems rms by simp
    note ih = Cons.IH[OF rec]
    show ?thesis
    proof (cases "rest = []")
      case True
      then have "imin = i" "rmsmin = Some rms" using ih by simp_all
      moreover have "\<exists>pre post. [i] = pre @ i # post
            \<and> (\<forall>j\<in>set pre. \<exists>r. split_cost fit h c lo j = Inr r \<and> rms < r)"
        by (rule exI[of _ "[]"]) simp
      ultimately show ?thesis
        using rms \<open>case r0 of None \<Rightarrow> True | Some r \<Rightarrow> rms < r\<close> True
        by (auto split: option.splits)
    next
      case False
      then obtain m where m: "rmsmin = Some m"
        "\<forall>j\<in>set rest. \<exists>r. split_cost fit h c lo j = Inr r \<and> m \<le> r"
        "m \<le> rms"
        "(m = rms \<and> imin = i)
              \<or> (m < rms
                 \<and> (\<exists>pre post. rest = pre @ imin # post
                      \<and> split_cost fit h c lo imin = Inr m
                      \<and> (\<forall>j\<in>set pre. \<exists>r. split_cost fit h c lo j = Inr r \<and> m < r)))"
        using ih by auto
      have all: "\<forall>j\<in>set (i # rest). \<exists>r. split_cost fit h c lo j = Inr r \<and> m \<le> r"
        using m(2,3) rms by simp
      have r0le: "case r0 of None \<Rightarrow> True | Some m0 \<Rightarrow> m < m0"
        using True m(3) by (auto split: option.splits)
      then have r0le': "case r0 of None \<Rightarrow> True | Some m0 \<Rightarrow> m \<le> m0"
        by (auto split: option.splits)
      have "\<exists>pre post. i # rest = pre @ imin # post
                      \<and> split_cost fit h c lo imin = Inr m
                      \<and> (\<forall>j\<in>set pre. \<exists>r. split_cost fit h c lo j = Inr r \<and> m < r)"
        using m(4)
      proof
        assume "m = rms \<and> imin = i"
        then have "i # rest = [] @ imin # rest \<and> split_cost fit h c lo imin = Inr m
            \<and> (\<forall>j\<in>set []. \<exists>r. split_cost fit h c lo j = Inr r \<and> m < r)"
          using rms by simp
        then show ?thesis by blast
      next
        assume "m < rms
                 \<and> (\<exists>pre post. rest = pre @ imin # post
                      \<and> split_cost fit h c lo imin = Inr m
                      \<and> (\<forall>j\<in>set pre. \<exists>r. split_cost fit h c lo j = Inr r \<and> m < r))"
        then obtain pre post where pp: "m < rms" "rest = pre @ imin # post"
           "split_cost fit h c lo imin = Inr m"
           "\<forall>j\<in>set pre. \<exists>r. split_cost fit h c lo j = Inr r \<and> m < r" by blast
        have "i # rest = (i # pre) @ imin # post \<and> split_cost fit h c lo imin = Inr m
            \<and> (\<forall>j\<in>set (i # pre). \<exists>r. split_cost fit h c lo j = Inr r \<and> m < r)"
          using pp rms by simp
        then show ?thesis by blast
      qed
      then show ?thesis using m(1) all r0le r0le' by auto
    qed
  next
    case False
    then obtain m0 where m0: "r0 = Some m0" "m0 \<le> rms"
      by (auto split: option.splits)
    have rec: "td_search fit h c lo rest (i0, r0) = Inr (imin, rmsmin)"
      using Cons.prems rms False by simp
    note ih = Cons.IH[OF rec]
    show ?thesis
    proof (cases "rest = []")
      case True
      then show ?thesis using ih m0 rms by simp
    next
      case False
      then obtain m where m: "rmsmin = Some m"
        "\<forall>j\<in>set rest. \<exists>r. split_cost fit h c lo j = Inr r \<and> m \<le> r"
        "m \<le> m0"
        "(m0 = m \<and> imin = i0)
              \<or> (m < m0
                 \<and> (\<exists>pre post. rest = pre @ imin # post
                      \<and> split_cost fit h c lo imin = Inr m
                      \<and> (\<forall>j\<in>set pre. \<exists>r. split_cost fit h c lo j = Inr r \<and> m < r)))"
        using ih m0 by auto
      have all: "\<forall>j\<in>set (i # rest). \<exists>r. split_cost fit h c lo j = Inr r \<and> m \<le> r"
        using m(2,3) m0(2) rms by simp
      from m(4) show ?thesis
      proof
        assume "m0 = m \<and> imin = i0"
        then show ?thesis using m(1) all m0 by auto
      next
        assume "m < m0
                 \<and> (\<exists>pre post. rest = pre @ imin # post
                      \<and> split_cost fit h c lo imin = Inr m
                      \<and> (\<forall>j\<in>set pre. \<exists>r. split_cost fit h c lo j = Inr r \<and> m < r))"
        then obtain pre post where pp: "m < m0" "rest = pre @ imin # post"
           "split_cost fit h c lo imin = Inr m"
           "\<forall>j\<in>set pre. \<exists>r. split_cost fit h c lo j = Inr r \<and> m < r" by blast
        have "i # rest = (i # pre) @ imin # post \<and> split_cost fit h c lo imin = Inr m
            \<and> (\<forall>j\<in>set (i # pre). \<exists>r. split_cost fit h c lo j = Inr r \<and> m < r)"
          using pp rms m0(2) by simp
        then have "\<exists>pre post. i # rest = pre @ imin # post
                      \<and> split_cost fit h c lo imin = Inr m
                      \<and> (\<forall>j\<in>set pre. \<exists>r. split_cost fit h c lo j = Inr r \<and> m < r)"
          by blast
        then show ?thesis using m(1) all m0 pp(1) by auto
      qed
    qed
  qed
qed


lemma rss_decomp:
  assumes "length xs = length ys"
  shows "rss xs ys a' b' =
     rss xs ys a b
     + sum_list (map (\<lambda>(x, y). ((a' - a) * x + (b' - b))\<^sup>2) (zip xs ys))
     - 2 * (a' - a) * sum_list (map (\<lambda>(x, y). x * (y - (a * x + b))) (zip xs ys))
     - 2 * (b' - b) * sum_list (map (\<lambda>(x, y). y - (a * x + b)) (zip xs ys))"
  using assms
  by (induction xs ys rule: list_induct2) (simp_all add: rss_def algebra_simps power2_eq_square)

lemma residual_sum:
  assumes "length xs = length ys"
  shows "sum_list (map (\<lambda>(x, y). y - ((a :: real) * x + b)) (zip xs ys))
       = sum_list ys - a * sum_list xs - real (length xs) * b"
  using assms
  by (induction xs ys rule: list_induct2) (simp_all add: algebra_simps)

lemma residual_x_sum:
  assumes "length xs = length ys"
  shows "sum_list (map (\<lambda>(x, y). x * (y - ((a :: real) * x + b))) (zip xs ys))
       = sum_list (map (\<lambda>(x, y). x * y) (zip xs ys))
         - a * sum_list (map (\<lambda>x. x * x) xs) - b * sum_list xs"
  using assms
proof (induction xs ys rule: list_induct2)
  case Nil
  then show ?case by simp
next
  case (Cons x xs y ys)
  have "x * (y - (a * x + b)) = x * y - a * (x * x) - b * x"
    by (simp add: algebra_simps)
  then show ?case using Cons.IH by (simp add: distrib_left)
qed

lemma squares_nonneg:
  "0 \<le> sum_list (map (\<lambda>(x, y). ((d :: real) * x + e)\<^sup>2) zs)"
  by (rule sum_list_nonneg) auto

lemma fit_line_least_squares:
  assumes "fit_line xs ys = Inr f"
  shows "least_squares xs ys f"
proof -
  define n where "n = real (length xs)"
  define sx where "sx = sum_list xs"
  define sy where "sy = sum_list ys"
  define sxx where "sxx = sum_list (map (\<lambda>x. x * x) xs)"
  define sxy where "sxy = sum_list (map (\<lambda>(x, y). x * y) (zip xs ys))"
  define den where "den = n * sxx - sx * sx"
  define a where "a = (n * sxy - sx * sy) / den"
  define b where "b = (sy - a * sx) / n"
  have len: "length xs = length ys" and den: "den \<noteq> 0"
    using assms unfolding den_def n_def sx_def sxx_def
    by (auto simp: fit_line_def Let_def split: if_splits)
  have f: "f = ((a, b), rss xs ys a b)"
    using assms len den
    unfolding a_def b_def den_def n_def sx_def sy_def sxx_def sxy_def
    by (simp add: fit_line_def Let_def)
  have n0: "n \<noteq> 0"
  proof
    assume "n = 0"
    then have "xs = []" by (simp add: n_def)
    then show False using den by (simp add: den_def sx_def sxx_def)
  qed
  have nb: "n * b = sy - a * sx" using n0 by (simp add: b_def)
  have "sum_list (map (\<lambda>(x, y). y - (a * x + b)) (zip xs ys)) = sy - a * sx - n * b"
    using residual_sum[OF len, of a b] by (simp add: n_def sx_def sy_def)
  then have e0: "sum_list (map (\<lambda>(x, y). y - (a * x + b)) (zip xs ys)) = 0"
    using nb by simp
  have ad: "a * den = n * sxy - sx * sy" using den by (simp add: a_def)
  have "n * (sxy - a * sxx - b * sx) = n * sxy - a * (n * sxx) - (n * b) * sx"
    by (simp add: algebra_simps)
  also have "\<dots> = n * sxy - sx * sy - a * den"
    unfolding nb den_def by (simp add: algebra_simps)
  also have "\<dots> = 0" using ad by simp
  finally have "sxy - a * sxx - b * sx = 0" using n0 by simp
  moreover have "sum_list (map (\<lambda>(x, y). x * (y - (a * x + b))) (zip xs ys))
      = sxy - a * sxx - b * sx"
    using residual_x_sum[OF len, of a b] by (simp add: sxy_def sxx_def sx_def)
  ultimately have ex0: "sum_list (map (\<lambda>(x, y). x * (y - (a * x + b))) (zip xs ys)) = 0"
    by simp
  have "rss xs ys a b \<le> rss xs ys a' b'" for a' b'
    using rss_decomp[OF len, of a' b' a b] squares_nonneg[of "a' - a" "b' - b" "zip xs ys"]
    unfolding e0 ex0 by simp
  then show ?thesis using f by (simp add: least_squares_def)
qed

lemma split_fits_least_squares:
  assumes "split_fits fit_line h c lo j = Inr (f0, f1)"
  shows "least_squares (slice h lo (j + 1)) (slice c lo (j + 1)) f0
       \<and> least_squares (drop j h) (drop j c) f1
       \<and> split_cost fit_line h c lo j = Inr (snd f0 + snd f1)"
proof -
  have "fit_line (slice h lo (j + 1)) (slice c lo (j + 1)) = Inr f0"
    and "fit_line (drop j h) (drop j c) = Inr f1"
    using assms by (auto simp: split_fits_def split: sum.splits)
  then show ?thesis
    using fit_line_least_squares assms by (simp add: split_cost_def)
qed

lemma upt_split_before:
  assumes "[a..<b] = pre @ i # post" and "j \<in> set [a..<b]" and "j < i"
  shows "j \<in> set pre"
proof -
  have "sorted (pre @ i # post)" using assms(1) by (metis sorted_upt)
  then have "\<forall>x\<in>set post. i \<le> x" by (simp add: sorted_append)
  then have "j \<notin> set (i # post)" using assms(3) by auto
  then show ?thesis using assms(1,2) by auto
qed

lemma changepoint_minimises:
  assumes "changepoint fit_line tp pt = Inr (imin, rmsmin)"
    and "td_candidates tp pt \<noteq> []"
  shows "imin \<in> set (td_candidates tp pt)
    \<and> (\<exists>m. rmsmin = Some m
         \<and> split_cost fit_line (take (pt + 1) (heights tp)) (take (pt + 1) (data tp))
               (pt - N_window tp) imin = Inr m
         \<and> (\<forall>j\<in>set (td_candidates tp pt). \<exists>r.
               split_cost fit_line (take (pt + 1) (heights tp)) (take (pt + 1) (data tp))
                 (pt - N_window tp) j = Inr r
               \<and> m \<le> r \<and> (j < imin \<longrightarrow> m < r)))
    \<and> (\<forall>j f0 f1.
          split_fits fit_line (take (pt + 1) (heights tp)) (take (pt + 1) (data tp))
            (pt - N_window tp) j = Inr (f0, f1) \<longrightarrow>
          least_squares (slice (take (pt + 1) (heights tp)) (pt - N_window tp) (j + 1))
                        (slice (take (pt + 1) (data tp)) (pt - N_window tp) (j + 1)) f0
        \<and> least_squares (drop j (take (pt + 1) (heights tp))) (drop j (take (pt + 1) (data tp))) f1
        \<and> split_cost fit_line (take (pt + 1) (heights tp)) (take (pt + 1) (data tp))
            (pt - N_window tp) j = Inr (snd f0 + snd f1))"
proof -
  let ?h = "take (pt + 1) (heights tp)"
  let ?c = "take (pt + 1) (data tp)"
  let ?lo = "pt - N_window tp"
  let ?cands = "td_candidates tp pt"
  have s: "td_search fit_line ?h ?c ?lo ?cands (?lo + N_fit_min tp, None) = Inr (imin, rmsmin)"
    using assms(1) by (simp add: changepoint_def)
  obtain m pre post where m: "rmsmin = Some m"
    "\<forall>j\<in>set ?cands. \<exists>r. split_cost fit_line ?h ?c ?lo j = Inr r \<and> m \<le> r"
    "?cands = pre @ imin # post"
    "split_cost fit_line ?h ?c ?lo imin = Inr m"
    "\<forall>j\<in>set pre. \<exists>r. split_cost fit_line ?h ?c ?lo j = Inr r \<and> m < r"
    using td_search_first_min[OF s] assms(2) by auto
  have mem: "imin \<in> set ?cands" using m(3) by simp
  have upt: "[?lo + N_fit_min tp..<pt - N_fit_min tp] = pre @ imin # post"
    using m(3) by (simp add: td_candidates_def)
  have strict: "\<exists>r. split_cost fit_line ?h ?c ?lo j = Inr r \<and> m \<le> r \<and> (j < imin \<longrightarrow> m < r)"
    if "j \<in> set ?cands" for j
  proof (cases "j < imin")
    case True
    have "j \<in> set [?lo + N_fit_min tp..<pt - N_fit_min tp]"
      using that by (simp add: td_candidates_def)
    then have "j \<in> set pre" using upt_split_before[OF upt _ True] by blast
    then show ?thesis using m(5) by fastforce
  next
    case False
    then show ?thesis using m(2) that by blast
  qed
  show ?thesis
    using mem m(1,4) strict split_fits_least_squares by blast
qed

lemma td_candidates_nonempty:
  assumes "search_runs tp pt"
  shows "(td_candidates tp pt \<noteq> []) = (2 * N_fit_min tp < N_window tp)"
  using assms by (auto simp: td_candidates_def search_runs_def)

lemma changepoint_empty:
  assumes "changepoint fit tp pt = Inr (imin, rmsmin)" and "td_candidates tp pt = []"
  shows "imin = pt - N_window tp + N_fit_min tp \<and> rmsmin = None"
  using assms by (simp add: changepoint_def)

text \<open>
  C4, as amended. When the search runs, its range of boundaries
  \<open>[pt - N_window + N_fit_min ..< pt - N_fit_min]\<close> is non-empty exactly when
  \<open>2 * N_fit_min < N_window\<close>. Over an empty range no boundary is examined and the split
  is the initial \<open>pt - N_window + N_fit_min\<close>. Over a non-empty range the selected
  boundary is in the range, its cost is the recorded minimum, no boundary of the range
  costs less, and every boundary before it costs strictly more: ties go to the first. The
  cost of a boundary is the sum of the residual sums of squares of the least-squares lines
  through the segment left of it and the segment right of it. (\<open>N_fit_max\<close> is read and
  not used.)
\<close>

theorem changepoint_selection:
  assumes "search_runs tp pt"
    and "changepoint fit_line tp pt = Inr (imin, rmsmin)"
  shows "(td_candidates tp pt \<noteq> []) = (2 * N_fit_min tp < N_window tp)
    \<and> (td_candidates tp pt = [] \<longrightarrow>
          imin = pt - N_window tp + N_fit_min tp \<and> rmsmin = None)
    \<and> (td_candidates tp pt \<noteq> [] \<longrightarrow>
          imin \<in> set (td_candidates tp pt)
        \<and> (\<exists>m. rmsmin = Some m
             \<and> split_cost fit_line (take (pt + 1) (heights tp)) (take (pt + 1) (data tp))
                   (pt - N_window tp) imin = Inr m
             \<and> (\<forall>j\<in>set (td_candidates tp pt). \<exists>r.
                   split_cost fit_line (take (pt + 1) (heights tp)) (take (pt + 1) (data tp))
                     (pt - N_window tp) j = Inr r
                   \<and> m \<le> r \<and> (j < imin \<longrightarrow> m < r))))
    \<and> (\<forall>j f0 f1.
          split_fits fit_line (take (pt + 1) (heights tp)) (take (pt + 1) (data tp))
            (pt - N_window tp) j = Inr (f0, f1) \<longrightarrow>
          least_squares (slice (take (pt + 1) (heights tp)) (pt - N_window tp) (j + 1))
                        (slice (take (pt + 1) (data tp)) (pt - N_window tp) (j + 1)) f0
        \<and> least_squares (drop j (take (pt + 1) (heights tp))) (drop j (take (pt + 1) (data tp))) f1
        \<and> split_cost fit_line (take (pt + 1) (heights tp)) (take (pt + 1) (data tp))
            (pt - N_window tp) j = Inr (snd f0 + snd f1))"
proof (intro conjI impI)
  show "(td_candidates tp pt \<noteq> []) = (2 * N_fit_min tp < N_window tp)"
    by (rule td_candidates_nonempty[OF assms(1)])
next
  assume "td_candidates tp pt = []"
  then show "imin = pt - N_window tp + N_fit_min tp" and "rmsmin = None"
    using changepoint_empty[OF assms(2)] by simp_all
next
  assume ne: "td_candidates tp pt \<noteq> []"
  show "imin \<in> set (td_candidates tp pt)"
    using changepoint_minimises[OF assms(2) ne] by blast
  show "\<exists>m. rmsmin = Some m
             \<and> split_cost fit_line (take (pt + 1) (heights tp)) (take (pt + 1) (data tp))
                   (pt - N_window tp) imin = Inr m
             \<and> (\<forall>j\<in>set (td_candidates tp pt). \<exists>r.
                   split_cost fit_line (take (pt + 1) (heights tp)) (take (pt + 1) (data tp))
                     (pt - N_window tp) j = Inr r
                   \<and> m \<le> r \<and> (j < imin \<longrightarrow> m < r))"
    using changepoint_minimises[OF assms(2) ne] by blast
next
  show "\<forall>j f0 f1.
          split_fits fit_line (take (pt + 1) (heights tp)) (take (pt + 1) (data tp))
            (pt - N_window tp) j = Inr (f0, f1) \<longrightarrow>
          least_squares (slice (take (pt + 1) (heights tp)) (pt - N_window tp) (j + 1))
                        (slice (take (pt + 1) (data tp)) (pt - N_window tp) (j + 1)) f0
        \<and> least_squares (drop j (take (pt + 1) (heights tp))) (drop j (take (pt + 1) (data tp))) f1
        \<and> split_cost fit_line (take (pt + 1) (heights tp)) (take (pt + 1) (data tp))
            (pt - N_window tp) j = Inr (snd f0 + snd f1)"
    using split_fits_least_squares by blast
qed

lemma narrow_plot_facts:
  "search_runs narrow_plot 15"
  "td_candidates narrow_plot 15 = []"
  "changepoint fit_line narrow_plot 15 = Inr (13, None)"
  "2 * N_fit_min narrow_plot = N_window narrow_plot"
  by code_simp+

theorem changepoint_selection_witness:
  "(changepoint fit_line kink_plot 15 = Inr (12, Some 0)
   \<and> td_candidates kink_plot 15 = [12, 13]
   \<and> split_cost fit_line (take (15 + 1) (heights kink_plot)) (take (15 + 1) (data kink_plot))
        (15 - N_window kink_plot) 12 = Inr 0
   \<and> split_cost fit_line (take (15 + 1) (heights kink_plot)) (take (15 + 1) (data kink_plot))
        (15 - N_window kink_plot) 13 = Inr (1 / 6)
   \<and> least_squares (slice (take (15 + 1) (heights kink_plot)) (15 - N_window kink_plot) (12 + 1))
        (slice (take (15 + 1) (data kink_plot)) (15 - N_window kink_plot) (12 + 1)) ((0, 0), 0)
   \<and> least_squares (drop 12 (take (15 + 1) (heights kink_plot)))
        (drop 12 (take (15 + 1) (data kink_plot))) ((1, - 12), 0))
   \<and> (changepoint fit_line narrow_plot 15 = Inr (15 - N_window narrow_plot + N_fit_min narrow_plot, None)
      \<and> td_candidates narrow_plot 15 = [])"
proof -
  have cp: "changepoint fit_line kink_plot 15 = Inr (12, Some 0)" by code_simp
  have cs: "td_candidates kink_plot 15 = [12, 13]" by code_simp
  have sr: "search_runs kink_plot 15" by code_simp
  have c12: "split_cost fit_line (take (15 + 1) (heights kink_plot)) (take (15 + 1) (data kink_plot))
        (15 - N_window kink_plot) 12 = Inr 0" by code_simp
  have c13: "split_cost fit_line (take (15 + 1) (heights kink_plot)) (take (15 + 1) (data kink_plot))
        (15 - N_window kink_plot) 13 = Inr (1 / 6)" by code_simp
  have sf: "split_fits fit_line (take (15 + 1) (heights kink_plot)) (take (15 + 1) (data kink_plot))
       (15 - N_window kink_plot) 12 = Inr (((0, 0), 0), ((1, -12), 0))" by code_simp
  have first: "least_squares (slice (take (15 + 1) (heights kink_plot)) (15 - N_window kink_plot) (12 + 1))
        (slice (take (15 + 1) (data kink_plot)) (15 - N_window kink_plot) (12 + 1)) ((0, 0), 0)
   \<and> least_squares (drop 12 (take (15 + 1) (heights kink_plot)))
        (drop 12 (take (15 + 1) (data kink_plot))) ((1, - 12), 0)"
    using changepoint_selection[OF sr cp] sf by blast
  have "13 = 15 - N_window narrow_plot + N_fit_min narrow_plot \<and> None = (None :: real option)"
    using changepoint_selection[OF narrow_plot_facts(1,3)] narrow_plot_facts(2) by blast
  then have second: "changepoint fit_line narrow_plot 15
      = Inr (15 - N_window narrow_plot + N_fit_min narrow_plot, None)"
    using narrow_plot_facts(3) by simp
  show ?thesis using cp cs c12 c13 first second narrow_plot_facts(2) by blast
qed

text \<open>
  C4 as stated fails where the range is empty: with a window of 4 and a minimum fit
  length of 2 the search runs at step 15, examines no boundary and leaves the split at 13.
\<close>

theorem changepoint_empty_range:
  "search_runs narrow_plot 15
   \<and> td_candidates narrow_plot 15 = []
   \<and> changepoint fit_line narrow_plot 15 = Inr (13, None)"
  using narrow_plot_facts(1,2,3) by blast

section \<open>Touchdown detection: a series without a slope change\<close>

lemma linear_sums:
  assumes "length xs = length ys" and "\<forall>(x, y)\<in>set (zip xs ys). y = a * x + (b :: real)"
  shows "sum_list ys = a * sum_list xs + real (length xs) * b
       \<and> sum_list (map (\<lambda>(x, y). x * y) (zip xs ys))
           = a * sum_list (map (\<lambda>x. x * x) xs) + b * sum_list xs
       \<and> rss xs ys a b = 0"
  using assms
proof (induction xs ys rule: list_induct2)
  case Nil
  then show ?case by (simp add: rss_def)
next
  case (Cons x xs y ys)
  have y: "y = a * x + b" using Cons.prems by simp
  have "\<forall>(x, y)\<in>set (zip xs ys). y = a * x + b" using Cons.prems by simp
  then have ih: "sum_list ys = a * sum_list xs + real (length xs) * b"
       "sum_list (map (\<lambda>(x, y). x * y) (zip xs ys))
           = a * sum_list (map (\<lambda>x. x * x) xs) + b * sum_list xs"
       "rss xs ys a b = 0"
    using Cons.IH by simp_all
  show ?case using ih y by (simp add: rss_def algebra_simps)
qed

lemma fit_line_linear:
  assumes "fit_line xs ys = Inr f" and "\<forall>(x, y)\<in>set (zip xs ys). y = a * x + b"
  shows "f = ((a, b), 0)"
proof -
  define n where "n = real (length xs)"
  define sx where "sx = sum_list xs"
  define sxx where "sxx = sum_list (map (\<lambda>x. x * x) xs)"
  define den where "den = n * sxx - sx * sx"
  have len: "length xs = length ys" and den: "den \<noteq> 0"
    using assms(1) unfolding den_def n_def sx_def sxx_def
    by (auto simp: fit_line_def Let_def split: if_splits)
  have sy: "sum_list ys = a * sx + n * b"
    and sxy: "sum_list (map (\<lambda>(x, y). x * y) (zip xs ys)) = a * sxx + b * sx"
    and r0: "rss xs ys a b = 0"
    using linear_sums[OF len assms(2)] by (simp_all add: n_def sx_def sxx_def)
  have n0: "n \<noteq> 0"
  proof
    assume "n = 0"
    then have "xs = []" by (simp add: n_def)
    then show False using den by (simp add: den_def sx_def sxx_def)
  qed
  have "n * (a * sxx + b * sx) - sx * (a * sx + n * b) = a * den"
    by (simp add: den_def algebra_simps)
  then have slope: "(n * (a * sxx + b * sx) - sx * (a * sx + n * b)) / den = a"
    using den by simp
  have icpt: "(a * sx + n * b - a * sx) / n = b" using n0 by simp
  have "fit_line xs ys = Inr ((a, b), rss xs ys a b)"
    using len den slope icpt
    unfolding fit_line_def Let_def sy sxy den_def n_def sx_def sxx_def
    by (simp add: sy[unfolded sx_def n_def] sxy[unfolded sxx_def sx_def])
  then show ?thesis using assms(1) r0 by simp
qed


lemma zip_slice_subset: "set (zip (slice h lo k) (slice c lo k)) \<subseteq> set (zip h c)"
proof -
  have "zip (slice h lo k) (slice c lo k) = take (k - lo) (drop lo (zip h c))"
    by (simp add: slice_def take_zip drop_zip)
  then show ?thesis
    by (metis set_take_subset set_drop_subset subset_trans)
qed

lemma zip_drop_subset: "set (zip (drop j h) (drop j c)) \<subseteq> set (zip h c)"
  by (metis drop_zip set_drop_subset)

lemma zip_take_subset: "set (zip (take n h) (take n c)) \<subseteq> set (zip h c)"
  by (metis take_zip set_take_subset)

lemma split_fits_linear:
  assumes "split_fits fit_line h c lo j = Inr (f0, f1)"
    and "\<forall>(x, y)\<in>set (zip h c). y = a * x + b"
  shows "f0 = ((a, b), 0) \<and> f1 = ((a, b), 0)"
proof -
  have l: "fit_line (slice h lo (j + 1)) (slice c lo (j + 1)) = Inr f0"
    and r: "fit_line (drop j h) (drop j c) = Inr f1"
    using assms(1) by (auto simp: split_fits_def split: sum.splits)
  have "\<forall>(x, y)\<in>set (zip (slice h lo (j + 1)) (slice c lo (j + 1))). y = a * x + b"
    using assms(2) zip_slice_subset[of h lo "j + 1" c] by blast
  moreover have "\<forall>(x, y)\<in>set (zip (drop j h) (drop j c)). y = a * x + b"
    using assms(2) zip_drop_subset[of j h c] by blast
  ultimately show ?thesis
    using fit_line_linear[OF l] fit_line_linear[OF r] by blast
qed

lemma check_for_td_detected_only:
  assumes "check_for_td fit tp pt = Inr out" and "td_has_occurred out"
  shows "\<exists>imin f0 f1.
      split_fits fit (take (pt + 1) (heights tp)) (take (pt + 1) (data tp)) (pt - N_window tp) imin
        = Inr (f0, f1)
    \<and> \<not> max_slope tp < \<bar>fst (fst f0)\<bar> \<and> max_slope tp < \<bar>fst (fst f0) - fst (fst f1)\<bar>"
  using assms
  by (fastforce simp: check_for_td_def Let_def quit_outcome_def continue_outcome_def
      exhausted_outcome_def split: sum.splits option.splits if_splits prod.splits)

lemma linear_never_detected:
  assumes "linear_series a b tp" and "check_for_td fit_line tp pt = Inr out"
  shows "\<not> td_has_occurred out"
proof
  assume "td_has_occurred out"
  then obtain imin f0 f1 where
    sf: "split_fits fit_line (take (pt + 1) (heights tp)) (take (pt + 1) (data tp))
           (pt - N_window tp) imin = Inr (f0, f1)"
    and ok: "\<not> max_slope tp < \<bar>fst (fst f0)\<bar>"
    and det: "max_slope tp < \<bar>fst (fst f0) - fst (fst f1)\<bar>"
    using check_for_td_detected_only[OF assms(2)] by blast
  have "\<forall>(x, y)\<in>set (zip (heights tp) (data tp)). y = a * x + b"
    using assms(1) by (simp add: linear_series_def list_all_iff)
  then have "\<forall>(x, y)\<in>set (zip (take (pt + 1) (heights tp)) (take (pt + 1) (data tp))). y = a * x + b"
    using zip_take_subset[of "pt + 1" "heights tp" "data tp"] by blast
  then have "f0 = ((a, b), 0)" "f1 = ((a, b), 0)"
    using split_fits_linear[OF sf] by simp_all
  then show False using ok det by simp
qed

lemma check_for_td_exhausted:
  assumes "length (heights tp) \<le> pt"
    and "safety_gate tp (take (pt + 1) (data tp)) pt = Inr None"
  shows "check_for_td fit tp pt = Inr (exhausted_outcome tp)"
  using assms by (simp add: check_for_td_def search_runs_def)


lemma centred_squares:
  "sum_list (map (\<lambda>x. (x - m)\<^sup>2) xs)
     = sum_list (map (\<lambda>x. x * x) xs) - 2 * m * sum_list xs + real (length xs) * (m * m)"
  for m :: real
  by (induction xs) (simp_all add: algebra_simps power2_eq_square)

lemma normal_equations_determined:
  assumes "distinct xs" and "2 \<le> length xs"
  shows "real (length xs) * sum_list (map (\<lambda>x. x * x) xs) - sum_list xs * sum_list xs \<noteq> 0"
proof
  define n where "n = real (length xs)"
  define m where "m = sum_list xs / n"
  assume z: "real (length xs) * sum_list (map (\<lambda>x. x * x) xs) - sum_list xs * sum_list xs = 0"
  have "xs \<noteq> []" using assms(2) by auto
  then have n0: "n \<noteq> 0" by (simp add: n_def)
  have nm: "n * m = sum_list xs" using n0 by (simp add: m_def)
  have "n * sum_list (map (\<lambda>x. (x - m)\<^sup>2) xs)
      = n * sum_list (map (\<lambda>x. x * x) xs) - 2 * (n * m) * sum_list xs + (n * m) * (n * m)"
    unfolding centred_squares[of m xs] by (simp add: n_def algebra_simps)
  also have "\<dots> = n * sum_list (map (\<lambda>x. x * x) xs) - sum_list xs * sum_list xs"
    unfolding nm by simp
  also have "\<dots> = 0" using z by (simp add: n_def)
  finally have "sum_list (map (\<lambda>x. (x - m)\<^sup>2) xs) = 0" using n0 by simp
  moreover have "\<forall>v\<in>set (map (\<lambda>x. (x - m)\<^sup>2) xs). 0 \<le> v" by auto
  ultimately have "\<forall>v\<in>set (map (\<lambda>x. (x - m)\<^sup>2) xs). v = 0"
    using sum_list_nonneg_eq_0_iff by blast
  then have all: "\<forall>x\<in>set xs. x = m" by simp
  have i0: "0 < length xs" and i1: "1 < length xs" using assms(2) by auto
  have "xs ! 0 \<in> set xs" "xs ! 1 \<in> set xs"
    using nth_mem[OF i0] nth_mem[OF i1] by simp_all
  then have "xs ! 0 = xs ! 1" using all by metis
  moreover have "xs ! 0 \<noteq> xs ! 1"
    using assms(1) i0 i1 by (simp add: nth_eq_iff_index_eq)
  ultimately show False by simp
qed

lemma fit_line_succeeds:
  assumes "length xs = length ys" and "distinct xs" and "2 \<le> length xs"
  shows "\<exists>f. fit_line xs ys = Inr f"
  using assms normal_equations_determined[OF assms(2,3)]
  by (simp add: fit_line_def Let_def)

lemma split_fits_flat:
  assumes "\<forall>(x, y)\<in>set (zip h c). y = a * x + b"
    and "distinct h" and "length h = length c"
    and "lo < j" and "j + 2 \<le> length h"
  shows "split_fits fit_line h c lo j = Inr (((a, b), 0), ((a, b), 0))"
proof -
  have ll: "length (slice h lo (j + 1)) = length (slice c lo (j + 1))"
    using assms(3) by (simp add: slice_def)
  have l2: "2 \<le> length (slice h lo (j + 1))"
    using assms(4,5) by (simp add: slice_def)
  have ld: "distinct (slice h lo (j + 1))"
    using assms(2) by (simp add: slice_def)
  have rl: "length (drop j h) = length (drop j c)" using assms(3) by simp
  have r2: "2 \<le> length (drop j h)" using assms(5) by simp
  have rd: "distinct (drop j h)" using assms(2) by simp
  obtain f0 where f0: "fit_line (slice h lo (j + 1)) (slice c lo (j + 1)) = Inr f0"
    using fit_line_succeeds[OF ll ld l2] by blast
  obtain f1 where f1: "fit_line (drop j h) (drop j c) = Inr f1"
    using fit_line_succeeds[OF rl rd r2] by blast
  have sf: "split_fits fit_line h c lo j = Inr (f0, f1)"
    using f0 f1 by (simp add: split_fits_def)
  then show ?thesis using split_fits_linear[OF sf assms(1)] by simp
qed

lemma td_search_total:
  assumes "\<forall>j\<in>set cands. \<exists>r. split_cost fit h c lo j = Inr r"
  shows "\<exists>imin rmsmin. td_search fit h c lo cands (i0, r0) = Inr (imin, rmsmin)
           \<and> (imin = i0 \<or> imin \<in> set cands)"
  using assms
proof (induction cands arbitrary: i0 r0)
  case Nil
  then show ?case by simp
next
  case (Cons i rest)
  then obtain r where r: "split_cost fit h c lo i = Inr r" by auto
  have rest: "\<forall>j\<in>set rest. \<exists>r. split_cost fit h c lo j = Inr r" using Cons.prems by simp
  show ?case
  proof (cases "case r0 of None \<Rightarrow> True | Some m \<Rightarrow> r < m")
    case True
    then show ?thesis using Cons.IH[OF rest, of i "Some r"] r by auto
  next
    case False
    then show ?thesis using Cons.IH[OF rest, of i0 r0] r by auto
  qed
qed


lemma check_for_td_flat_search:
  assumes "linear_series a b tp" and "distinct (heights tp)"
    and "1 \<le> N_fit_min tp" and "N_fit_min tp < N_window tp"
    and "search_runs tp pt"
    and "safety_gate tp (take (pt + 1) (data tp)) pt = Inr None"
  shows "check_for_td fit_line tp pt =
           Inr (if max_slope tp < \<bar>a\<bar> then quit_outcome tp [WarnSlopeTooBig a]
                else continue_outcome tp)"
proof -
  let ?h = "take (pt + 1) (heights tp)"
  let ?c = "take (pt + 1) (data tp)"
  let ?lo = "pt - N_window tp"
  have pt: "pt < length (heights tp)" "N_window tp + 10 < pt"
    using assms(5) by (simp_all add: search_runs_def)
  have lh: "length ?h = pt + 1" using pt(1) by simp
  have "pt < length ?c"
    using assms(6) pt(2) by (simp add: safety_gate_def split: if_splits)
  then have lc: "length ?c = pt + 1" by simp
  have "\<forall>(x, y)\<in>set (zip (heights tp) (data tp)). y = a * x + b"
    using assms(1) by (simp add: linear_series_def list_all_iff)
  then have lin: "\<forall>(x, y)\<in>set (zip ?h ?c). y = a * x + b"
    using zip_take_subset[of "pt + 1" "heights tp" "data tp"] by blast
  have dh: "distinct ?h" using assms(2) by simp
  have flat: "split_fits fit_line ?h ?c ?lo j = Inr (((a, b), 0), ((a, b), 0))"
    if "?lo < j" and "j < pt" for j
  proof -
    have ll: "length ?h = length ?c" using lh lc by simp
    have j2: "j + 2 \<le> length ?h" using that(2) lh by linarith
    show ?thesis by (rule split_fits_flat[OF lin dh ll that(1) j2])
  qed
  have cands: "?lo < j \<and> j < pt" if "j \<in> set (td_candidates tp pt)" for j
    using that assms(3) by (auto simp: td_candidates_def)
  have costs: "\<forall>j\<in>set (td_candidates tp pt). \<exists>r. split_cost fit_line ?h ?c ?lo j = Inr r"
    using cands flat by (simp add: split_cost_def)
  obtain imin rmsmin where cp: "changepoint fit_line tp pt = Inr (imin, rmsmin)"
    and im: "imin = ?lo + N_fit_min tp \<or> imin \<in> set (td_candidates tp pt)"
    using td_search_total[OF costs, of "?lo + N_fit_min tp" None]
    by (auto simp: changepoint_def)
  have "?lo < ?lo + N_fit_min tp \<and> ?lo + N_fit_min tp < pt"
    using assms(3,4) pt(2) by auto
  then have "?lo < imin \<and> imin < pt" using im cands by blast
  then have sf: "split_fits fit_line ?h ?c ?lo imin = Inr (((a, b), 0), ((a, b), 0))"
    using flat by blast
  show ?thesis
    using check_for_td_search[OF assms(6,5) cp sf] by auto
qed

text \<open>
  What holds for a series that is linear in the height, \<open>c = a * h + b\<close>: no call
  declares a touchdown; at a step where the search runs and the safety checks pass
  (distinct heights, \<open>1 \<le> N_fit_min < N_window\<close>) the call goes on, or aborts on the
  slope when \<open>\<bar>a\<bar>\<close> exceeds \<open>max_slope\<close>; and at a step index that has reached the
  planned number of heights, if the safety checks pass, it returns True with the height
  and the slopes of the plot set to None and the range message logged.
\<close>

lemma check_for_td_flat_series:
  assumes "linear_series a b tp"
  shows "(\<forall>pt out. check_for_td fit_line tp pt = Inr out \<longrightarrow> \<not> td_has_occurred out)
    \<and> (\<forall>pt. distinct (heights tp) \<and> 1 \<le> N_fit_min tp \<and> N_fit_min tp < N_window tp
            \<and> search_runs tp pt \<and> safety_gate tp (take (pt + 1) (data tp)) pt = Inr None \<longrightarrow>
          check_for_td fit_line tp pt =
            Inr (if max_slope tp < \<bar>a\<bar> then quit_outcome tp [WarnSlopeTooBig a]
                 else continue_outcome tp))
    \<and> (\<forall>pt. length (heights tp) \<le> pt \<and> safety_gate tp (take (pt + 1) (data tp)) pt = Inr None \<longrightarrow>
          check_for_td fit_line tp pt =
            Inr \<lparr>returned = True, td_has_occurred = False, td_height = None,
                 plot_after = tp\<lparr>plot_td_height := None, pre_td_slope := None,
                                 post_td_slope := None\<rparr>,
                 td_log = [InfoNoTouchdownInRange]\<rparr>)"
proof -
  have "\<forall>pt. length (heights tp) \<le> pt \<and> safety_gate tp (take (pt + 1) (data tp)) pt = Inr None \<longrightarrow>
          check_for_td fit_line tp pt =
            Inr \<lparr>returned = True, td_has_occurred = False, td_height = None,
                 plot_after = tp\<lparr>plot_td_height := None, pre_td_slope := None,
                                 post_td_slope := None\<rparr>,
                 td_log = [InfoNoTouchdownInRange]\<rparr>"
    using check_for_td_exhausted[of tp _ fit_line] by (simp add: exhausted_outcome_def)
  then show ?thesis
    using linear_never_detected[OF assms] check_for_td_flat_search[OF assms] by blast
qed

lemma flat_plot_facts:
  "linear_series 2 1 flat_plot"
  "distinct (heights flat_plot) \<and> 1 \<le> N_fit_min flat_plot \<and> N_fit_min flat_plot < N_window flat_plot
     \<and> search_runs flat_plot 15
     \<and> safety_gate flat_plot (take (15 + 1) (data flat_plot)) 15 = Inr None"
  "length (heights flat_plot) \<le> 16
     \<and> safety_gate flat_plot (take (16 + 1) (data flat_plot)) 16 = Inr None"
  by code_simp+

lemma check_for_td_flat_series_instance:
  "check_for_td fit_line flat_plot 15 =
     Inr \<lparr>returned = False, td_has_occurred = False, td_height = None, plot_after = flat_plot,
          td_log = []\<rparr>
   \<and> check_for_td fit_line flat_plot 16 =
     Inr \<lparr>returned = True, td_has_occurred = False, td_height = None,
          plot_after = flat_plot\<lparr>plot_td_height := None, pre_td_slope := None,
                                 post_td_slope := None\<rparr>,
          td_log = [InfoNoTouchdownInRange]\<rparr>"
proof -
  have m: "\<not> max_slope flat_plot < \<bar>2\<bar>" by (simp add: flat_plot_def)
  show ?thesis
    using check_for_td_flat_series[OF flat_plot_facts(1)] flat_plot_facts(2,3) m
    by (simp add: continue_outcome_def)
qed

lemma check_for_td_aligned_raises:
  assumes "length (data tp) \<le> length (heights tp)"
    and "length (heights tp) \<le> pt" and "1 < pt"
  shows "check_for_td fit tp pt = Inl IndexError"
  using assms by (simp add: check_for_td_def safety_gate_def)

text \<open>
  C8. The range check \<^verbatim>\<open>pt >= len(tdc_plot.heights)\<close> comes after the safety checks,
  which read \<^verbatim>\<open>cdata[pt]\<close>. With one data row per planned height that row does not
  exist once the step index has reached the number of heights (the lemma above, for
  every step index above 1), and the call raises instead of reporting that the range is
  exhausted. The instance is a constant series within all bounds, three heights, at step
  index 3.
\<close>

theorem check_for_td_flat_aligned_raises:
  "linear_series 0 7 aligned_plot
   \<and> length (data aligned_plot) = length (heights aligned_plot)
   \<and> check_for_td fit_line aligned_plot (length (heights aligned_plot)) = Inl IndexError"
  by (simp add: linear_series_def aligned_plot_def check_for_td_def safety_gate_def)

end
